theory Spec2Isabelle
  imports Main "HOL-Library.Word"
begin

section \<open>JavaScript strings\<close>

text \<open>
  A JavaScript string is a sequence of UTF-16 code units. \<open>str.length\<close> counts code
  units; the string iterator (\<open>[...str]\<close>) walks code points, taking a high surrogate
  followed by a low surrogate as one element and every other code unit, a lone surrogate
  included, as an element of its own.
\<close>

type_synonym codeunit = "16 word"
type_synonym jsstring = "codeunit list"

definition isHighSurrogate :: "codeunit \<Rightarrow> bool" where
  "isHighSurrogate c = (0xD800 \<le> c \<and> c \<le> 0xDBFF)"

definition isLowSurrogate :: "codeunit \<Rightarrow> bool" where
  "isLowSurrogate c = (0xDC00 \<le> c \<and> c \<le> 0xDFFF)"

definition isSurrogate :: "codeunit \<Rightarrow> bool" where
  "isSurrogate c = (0xD800 \<le> c \<and> c \<le> 0xDFFF)"

text \<open>\<open>[...str]\<close>: the elements the string iterator yields, each a string of one code point.\<close>

fun spread :: "jsstring \<Rightarrow> jsstring list" where
  "spread [] = []"
| "spread [c] = [[c]]"
| "spread (c1 # c2 # cs) =
     (if isHighSurrogate c1 \<and> isLowSurrogate c2 then [c1, c2] # spread cs
      else [c1] # spread (c2 # cs))"

text \<open>The code point an element of \<open>spread\<close> stands for (\<open>codePointAt(0)\<close>).\<close>

fun codePointOf :: "jsstring \<Rightarrow> nat" where
  "codePointOf [hi, lo] = 0x10000 + (unat hi - 0xD800) * 0x400 + (unat lo - 0xDC00)"
| "codePointOf [c] = unat c"
| "codePointOf _ = 0"

definition codePoints :: "jsstring \<Rightarrow> nat list" where
  "codePoints s = map codePointOf (spread s)"

text \<open>
  A string can be written out as valid UTF-8 without loss exactly when it has no lone
  surrogate (\<open>String.prototype.isWellFormed\<close>).
\<close>

fun loneSurrogate :: "jsstring \<Rightarrow> bool" where
  "loneSurrogate [c] = isSurrogate c"
| "loneSurrogate _ = False"

definition isWellFormed :: "jsstring \<Rightarrow> bool" where
  "isWellFormed s = (\<not> list_ex loneSurrogate (spread s))"

text \<open>ASCII literals as JavaScript strings.\<close>

definition js :: "string \<Rightarrow> jsstring" where
  "js s = map (\<lambda>c. of_nat (of_char c)) s"

section \<open>The composition buffer\<close>

text \<open>
  \<open>CompositionState\<close> with the option \<open>compositionTimeout\<close> and the part of Node's timer
  table the buffer touches: \<open>pending\<close> lists the handles \<open>setTimeout\<close> has armed and that
  have neither fired nor been cleared, each with its delay, and \<open>nextHandle\<close> is the next
  fresh handle. The debug callback only logs and is left out.
\<close>

record CompositionBuffer =
  isComposing :: bool
  buffer :: jsstring
  lastInputTime :: int
  flushTimer :: "nat option"
  compositionTimeout :: int
  pending :: "(nat \<times> int) list"
  nextHandle :: nat

text \<open>A call of one of the two sinks handed to the constructor.\<close>

datatype emission = OnFlush jsstring | OnRegularInput jsstring

definition DEFAULT_TIMEOUT :: int where
  "DEFAULT_TIMEOUT = 50"

definition createCompositionBuffer :: "int option \<Rightarrow> CompositionBuffer" where
  "createCompositionBuffer timeout =
     \<lparr> isComposing = False, buffer = [], lastInputTime = 0, flushTimer = None,
       compositionTimeout = (case timeout of Some t \<Rightarrow> t | None \<Rightarrow> DEFAULT_TIMEOUT),
       pending = [], nextHandle = 0 \<rparr>"

definition clearTimeout :: "nat \<Rightarrow> CompositionBuffer \<Rightarrow> CompositionBuffer" where
  "clearTimeout h s = s\<lparr>pending := filter (\<lambda>t. fst t \<noteq> h) (pending s)\<rparr>"

definition setTimeout :: "int \<Rightarrow> CompositionBuffer \<Rightarrow> nat \<times> CompositionBuffer" where
  "setTimeout delay s =
     (nextHandle s, s\<lparr>pending := pending s @ [(nextHandle s, delay)], nextHandle := Suc (nextHandle s)\<rparr>)"

text \<open>
  Every operation returns the sink calls it made, in order, with the new state.
\<close>

definition flush :: "CompositionBuffer \<Rightarrow> emission list \<times> CompositionBuffer" where
  "flush s =
     (let s1 = (case flushTimer s of
                  Some h \<Rightarrow> (clearTimeout h s)\<lparr>flushTimer := None\<rparr>
                | None \<Rightarrow> s);
          (out, s2) = (if buffer s1 \<noteq> [] then ([OnFlush (buffer s1)], s1\<lparr>buffer := []\<rparr>)
                       else ([], s1))
      in (out, s2\<lparr>isComposing := False\<rparr>))"

definition handleIMEInput :: "jsstring \<Rightarrow> int \<Rightarrow> CompositionBuffer \<Rightarrow> emission list \<times> CompositionBuffer" where
  "handleIMEInput input now s =
     (let s1 = s\<lparr>isComposing := True, buffer := buffer s @ input, lastInputTime := now\<rparr>;
          s2 = (case flushTimer s1 of Some h \<Rightarrow> clearTimeout h s1 | None \<Rightarrow> s1);
          (h, s3) = setTimeout (compositionTimeout s2) s2
      in ([], s3\<lparr>flushTimer := Some h\<rparr>))"

definition handleRegularInput :: "jsstring \<Rightarrow> CompositionBuffer \<Rightarrow> emission list \<times> CompositionBuffer" where
  "handleRegularInput input s =
     (let (out, s1) = (if isComposing s \<and> buffer s \<noteq> [] then flush s else ([], s))
      in (out @ [OnRegularInput input], s1))"

text \<open>\<open>process\<close>; \<open>now\<close> is the value \<open>Date.now()\<close> returns.\<close>

definition process :: "jsstring \<Rightarrow> bool \<Rightarrow> int \<Rightarrow> CompositionBuffer \<Rightarrow> emission list \<times> CompositionBuffer" where
  "process input isIME now s =
     (if isIME then handleIMEInput input now s else handleRegularInput input s)"

definition getBuffer :: "CompositionBuffer \<Rightarrow> jsstring" where
  "getBuffer s = buffer s"

definition clear :: "CompositionBuffer \<Rightarrow> CompositionBuffer" where
  "clear s =
     (let s1 = (case flushTimer s of
                  Some h \<Rightarrow> (clearTimeout h s)\<lparr>flushTimer := None\<rparr>
                | None \<Rightarrow> s)
      in s1\<lparr>buffer := [], isComposing := False\<rparr>)"

text \<open>\<open>chars.pop()\<close> on a non-empty array drops its last element; \<open>join('')\<close> concatenates.\<close>

definition backspace :: "CompositionBuffer \<Rightarrow> bool \<times> CompositionBuffer" where
  "backspace s =
     (if length (buffer s) > 0
      then (let chars = spread (buffer s);
                chars' = butlast chars
            in (True, s\<lparr>buffer := concat chars'\<rparr>))
      else (False, s))"

text \<open>\<open>CompositionBuffer.destroy\<close>; the proxy has a \<open>destroy\<close> of its own.\<close>

definition destroyBuffer :: "CompositionBuffer \<Rightarrow> CompositionBuffer" where
  "destroyBuffer s =
     (case flushTimer s of
        Some h \<Rightarrow> (clearTimeout h s)\<lparr>flushTimer := None\<rparr>
      | None \<Rightarrow> s)"

text \<open>
  The callback armed by \<open>handleIMEInput\<close>: when the timer with handle \<open>h\<close> is still
  pending it leaves the timer table and \<open>flush\<close> runs; a handle that was cleared or has
  fired never runs.
\<close>

definition timerFires :: "nat \<Rightarrow> CompositionBuffer \<Rightarrow> emission list \<times> CompositionBuffer" where
  "timerFires h s =
     (if h \<in> fst ` set (pending s) then flush (clearTimeout h s) else ([], s))"

section \<open>The IME detector\<close>

text \<open>
  The regular expressions of \<open>UNICODE_RANGES\<close> that the detector uses carry no \<open>u\<close> flag,
  so each is a character class over single code units, and \<open>test\<close> asks whether some code
  unit of the string lies in the class. (\<open>chinese.extB\<close> is declared but never tested.)
\<close>

definition inRange :: "codeunit \<Rightarrow> codeunit \<Rightarrow> codeunit \<Rightarrow> bool" where
  "inRange lo hi c = (lo \<le> c \<and> c \<le> hi)"

definition test :: "(codeunit \<Rightarrow> bool) \<Rightarrow> jsstring \<Rightarrow> bool" where
  "test cls str = list_ex cls str"

definition vietnamese_precomposed :: "codeunit \<Rightarrow> bool" where
  "vietnamese_precomposed c =
     (inRange 0x00C0 0x00FF c \<or> inRange 0x0102 0x0103 c \<or> inRange 0x0110 0x0111 c \<or>
      inRange 0x0128 0x0129 c \<or> inRange 0x0168 0x0169 c \<or> inRange 0x01A0 0x01B0 c \<or>
      inRange 0x1EA0 0x1EF9 c)"

definition vietnamese_combining :: "codeunit \<Rightarrow> bool" where
  "vietnamese_combining c = inRange 0x0300 0x036F c"

definition chinese_main :: "codeunit \<Rightarrow> bool" where
  "chinese_main c = inRange 0x4E00 0x9FFF c"

definition chinese_extA :: "codeunit \<Rightarrow> bool" where
  "chinese_extA c = inRange 0x3400 0x4DBF c"

definition chinese_compat :: "codeunit \<Rightarrow> bool" where
  "chinese_compat c = inRange 0xF900 0xFAFF c"

definition chinese_radicals :: "codeunit \<Rightarrow> bool" where
  "chinese_radicals c = inRange 0x2F00 0x2FDF c"

definition japanese_hiragana :: "codeunit \<Rightarrow> bool" where
  "japanese_hiragana c = inRange 0x3040 0x309F c"

definition japanese_katakana :: "codeunit \<Rightarrow> bool" where
  "japanese_katakana c = inRange 0x30A0 0x30FF c"

definition japanese_katakanaExt :: "codeunit \<Rightarrow> bool" where
  "japanese_katakanaExt c = inRange 0x31F0 0x31FF c"

definition japanese_halfwidth :: "codeunit \<Rightarrow> bool" where
  "japanese_halfwidth c = inRange 0xFF65 0xFF9F c"

definition korean_hangul :: "codeunit \<Rightarrow> bool" where
  "korean_hangul c = inRange 0xAC00 0xD7AF c"

definition korean_jamo :: "codeunit \<Rightarrow> bool" where
  "korean_jamo c = inRange 0x1100 0x11FF c"

definition korean_jamoExt :: "codeunit \<Rightarrow> bool" where
  "korean_jamoExt c = inRange 0xA960 0xA97F c"

definition korean_compat :: "codeunit \<Rightarrow> bool" where
  "korean_compat c = inRange 0x3130 0x318F c"

definition thai :: "codeunit \<Rightarrow> bool" where
  "thai c = inRange 0x0E00 0x0E7F c"

definition arabic :: "codeunit \<Rightarrow> bool" where
  "arabic c = inRange 0x0600 0x06FF c"

definition devanagari :: "codeunit \<Rightarrow> bool" where
  "devanagari c = inRange 0x0900 0x097F c"

definition isVietnamese :: "jsstring \<Rightarrow> bool" where
  "isVietnamese str = (test vietnamese_precomposed str \<or> test vietnamese_combining str)"

definition isChinese :: "jsstring \<Rightarrow> bool" where
  "isChinese str =
     (test chinese_main str \<or> test chinese_extA str \<or> test chinese_compat str \<or>
      test chinese_radicals str)"

definition isJapanese :: "jsstring \<Rightarrow> bool" where
  "isJapanese str =
     (test japanese_hiragana str \<or> test japanese_katakana str \<or>
      test japanese_katakanaExt str \<or> test japanese_halfwidth str)"

definition isKorean :: "jsstring \<Rightarrow> bool" where
  "isKorean str =
     (test korean_hangul str \<or> test korean_jamo str \<or> test korean_jamoExt str \<or>
      test korean_compat str)"

definition isCJK :: "jsstring \<Rightarrow> bool" where
  "isCJK str = (isChinese str \<or> isJapanese str \<or> isKorean str)"

text \<open>
  \<open>Buffer.byteLength(str, 'utf8')\<close>: the bytes of each code point in UTF-8; a lone
  surrogate is written as U+FFFD, three bytes.
\<close>

fun utf8Length :: "jsstring \<Rightarrow> nat" where
  "utf8Length [c] = (if c < 0x80 then 1 else if c < 0x800 then 2 else 3)"
| "utf8Length _ = 4"

definition byteLength :: "jsstring \<Rightarrow> nat" where
  "byteLength str = sum_list (map utf8Length (spread str))"

definition isMultiByte :: "jsstring \<Rightarrow> bool" where
  "isMultiByte str = (byteLength str > length str)"

definition hasCombiningMarks :: "jsstring \<Rightarrow> bool" where
  "hasCombiningMarks str = test vietnamese_combining str"

definition isIMEInput :: "jsstring \<Rightarrow> bool" where
  "isIMEInput input =
     (if input = [] \<or> (case input of [c] \<Rightarrow> c < 128 | _ \<Rightarrow> False) then False
      else if isMultiByte input then True
      else if hasCombiningMarks input then True
      else if isVietnamese input \<or> isCJK input then True
      else if test thai input \<or> test arabic input \<or> test devanagari input then True
      else False)"

section \<open>Decoding terminal bytes\<close>

text \<open>
  \<open>data.toString('utf8')\<close> decodes a chunk of bytes as UTF-8, putting U+FFFD for every
  maximal ill-formed part. The decoder reads a lead byte, then the continuation bytes it
  calls for, each within \<open>lower\<close> and \<open>upper\<close>; the pending sequence is
  \<open>(code point so far, bytes still needed, lower, upper)\<close>.
\<close>

type_synonym byte = "8 word"
type_synonym sequence = "nat \<times> nat \<times> byte \<times> byte"

definition leadByte :: "byte \<Rightarrow> nat list \<times> sequence option" where
  "leadByte b =
     (if b \<le> 0x7F then ([unat b], None)
      else if 0xC2 \<le> b \<and> b \<le> 0xDF then ([], Some (unat b mod 32, 1, 0x80, 0xBF))
      else if 0xE0 \<le> b \<and> b \<le> 0xEF then
        ([], Some (unat b mod 16, 2, if b = 0xE0 then 0xA0 else 0x80, if b = 0xED then 0x9F else 0xBF))
      else if 0xF0 \<le> b \<and> b \<le> 0xF4 then
        ([], Some (unat b mod 8, 3, if b = 0xF0 then 0x90 else 0x80, if b = 0xF4 then 0x8F else 0xBF))
      else ([0xFFFD], None))"

fun utf8Decode :: "sequence option \<Rightarrow> byte list \<Rightarrow> nat list" where
  "utf8Decode None [] = []"
| "utf8Decode (Some q) [] = [0xFFFD]"
| "utf8Decode None (b # bs) = fst (leadByte b) @ utf8Decode (snd (leadByte b)) bs"
| "utf8Decode (Some (cp, needed, lower, upper)) (b # bs) =
     (if b < lower \<or> upper < b
      then 0xFFFD # fst (leadByte b) @ utf8Decode (snd (leadByte b)) bs
      else if needed = 1 then (cp * 64 + unat b mod 64) # utf8Decode None bs
      else utf8Decode (Some (cp * 64 + unat b mod 64, needed - 1, 0x80, 0xBF)) bs)"

definition fromCodePoint :: "nat \<Rightarrow> jsstring" where
  "fromCodePoint cp =
     (if cp < 0x10000 then [of_nat cp]
      else [of_nat (0xD800 + (cp - 0x10000) div 0x400), of_nat (0xDC00 + (cp - 0x10000) mod 0x400)])"

definition toStringUtf8 :: "byte list \<Rightarrow> jsstring" where
  "toStringUtf8 data = concat (map fromCodePoint (utf8Decode None data))"

section \<open>The proxy\<close>

text \<open>
  The fields of \<open>TerminalIMEProxy\<close> with what its handlers do to the world: \<open>ptyWritten\<close>
  and \<open>stdoutWritten\<close> list the arguments of the calls of \<open>pty.write\<close> and
  \<open>process.stdout.write\<close> in order, \<open>ptyKills\<close> counts \<open>pty.kill()\<close>, \<open>ptySize\<close> is the
  geometry last given to the PTY, \<open>rawMode\<close> the mode of stdin, and \<open>exited\<close> holds the
  code \<open>process.exit\<close> was called with. Debug output goes to stderr only and is left out.
\<close>

record TerminalIMEProxy =
  isDestroyed :: bool
  compositionBuffer :: CompositionBuffer
  ptyWritten :: "jsstring list"
  stdoutWritten :: "jsstring list"
  ptyKills :: nat
  ptySize :: "nat \<times> nat"
  stdinIsTTY :: bool
  rawMode :: bool
  exited :: "int option"

text \<open>
  The constructor: the buffer is created with \<open>options.compositionTimeout ?? 50\<close>, the
  child is spawned at \<open>cols\<close> by \<open>rows\<close> (\<open>options.cols ?? process.stdout.columns ?? 80\<close>
  and likewise 24 rows), and stdin goes to raw mode when it is a TTY.
\<close>

definition newTerminalIMEProxy ::
  "int option \<Rightarrow> nat option \<Rightarrow> nat option \<Rightarrow> nat option \<Rightarrow> nat option \<Rightarrow> bool \<Rightarrow> TerminalIMEProxy" where
  "newTerminalIMEProxy timeout optCols optRows ttyCols ttyRows isTTY =
     \<lparr> isDestroyed = False,
       compositionBuffer =
         createCompositionBuffer (Some (case timeout of Some t \<Rightarrow> t | None \<Rightarrow> 50)),
       ptyWritten = [], stdoutWritten = [], ptyKills = 0,
       ptySize =
         (case optCols of Some c \<Rightarrow> c | None \<Rightarrow> (case ttyCols of Some c \<Rightarrow> c | None \<Rightarrow> 80),
          case optRows of Some r \<Rightarrow> r | None \<Rightarrow> (case ttyRows of Some r \<Rightarrow> r | None \<Rightarrow> 24)),
       stdinIsTTY = isTTY, rawMode = isTTY, exited = None \<rparr>"

definition sendToApp :: "jsstring \<Rightarrow> TerminalIMEProxy \<Rightarrow> TerminalIMEProxy" where
  "sendToApp text p = (if \<not> isDestroyed p then p\<lparr>ptyWritten := ptyWritten p @ [text]\<rparr> else p)"

text \<open>Both sinks of the buffer are \<open>(text) => this.sendToApp(text)\<close>.\<close>

fun sink :: "emission \<Rightarrow> TerminalIMEProxy \<Rightarrow> TerminalIMEProxy" where
  "sink (OnFlush text) p = sendToApp text p"
| "sink (OnRegularInput text) p = sendToApp text p"

text \<open>
  A call from the proxy into its buffer: the buffer takes its new state and every sink
  call the operation made reaches \<open>sendToApp\<close>, in order.
\<close>

definition bufferCall ::
  "(CompositionBuffer \<Rightarrow> emission list \<times> CompositionBuffer) \<Rightarrow> TerminalIMEProxy \<Rightarrow> TerminalIMEProxy" where
  "bufferCall f p =
     fold sink (fst (f (compositionBuffer p))) (p\<lparr>compositionBuffer := snd (f (compositionBuffer p))\<rparr>)"

definition handleSpecialKeys :: "byte list \<Rightarrow> TerminalIMEProxy \<Rightarrow> bool \<times> TerminalIMEProxy" where
  "handleSpecialKeys data p =
     (if length data = 1 \<and> hd data = 0x03 then
        (True, sendToApp (toStringUtf8 data) (bufferCall flush p))
      else if length data = 1 \<and> hd data = 0x04 then
        (True, sendToApp (toStringUtf8 data) (bufferCall flush p))
      else if length data = 1 \<and> (hd data = 0x7F \<or> hd data = 0x08) then
        (let (handled, cb) = backspace (compositionBuffer p);
             p1 = p\<lparr>compositionBuffer := cb\<rparr>
         in (True, if \<not> handled then sendToApp (toStringUtf8 data) p1 else p1))
      else if length data = 1 \<and> (hd data = 0x0D \<or> hd data = 0x0A) then
        (True, sendToApp (toStringUtf8 data) (bufferCall flush p))
      else if (case data of b # bs \<Rightarrow> b = 0x1B | [] \<Rightarrow> False) then
        (True, sendToApp (toStringUtf8 data) (bufferCall flush p))
      else (False, p))"

text \<open>The listener on \<open>process.stdin\<close>; \<open>now\<close> is what \<open>Date.now()\<close> returns in \<open>process\<close>.\<close>

definition onStdinData :: "byte list \<Rightarrow> int \<Rightarrow> TerminalIMEProxy \<Rightarrow> TerminalIMEProxy" where
  "onStdinData data now p =
     (if isDestroyed p then p
      else (let input = toStringUtf8 data;
                (special, p1) = handleSpecialKeys data p
            in if special then p1
               else bufferCall (process input (isIMEInput input) now) p1))"

definition onPtyData :: "jsstring \<Rightarrow> TerminalIMEProxy \<Rightarrow> TerminalIMEProxy" where
  "onPtyData data p = (if \<not> isDestroyed p then p\<lparr>stdoutWritten := stdoutWritten p @ [data]\<rparr> else p)"

definition destroy :: "TerminalIMEProxy \<Rightarrow> TerminalIMEProxy" where
  "destroy p =
     (if isDestroyed p then p
      else p\<lparr>isDestroyed := True,
             compositionBuffer := destroyBuffer (compositionBuffer p),
             rawMode := (if stdinIsTTY p then False else rawMode p),
             ptyKills := Suc (ptyKills p)\<rparr>)"

text \<open>
  \<open>process.exit(code)\<close> runs the \<open>'exit'\<close> listener, which calls \<open>destroy\<close>, and ends the
  process with \<open>code\<close>.
\<close>

definition processExit :: "int \<Rightarrow> TerminalIMEProxy \<Rightarrow> TerminalIMEProxy" where
  "processExit code p = (destroy p)\<lparr>exited := Some code\<rparr>"

definition onPtyExit :: "int \<Rightarrow> int \<Rightarrow> TerminalIMEProxy \<Rightarrow> TerminalIMEProxy" where
  "onPtyExit exitCode signal p = processExit exitCode (destroy p)"

definition onSIGINT :: "TerminalIMEProxy \<Rightarrow> TerminalIMEProxy" where
  "onSIGINT p = p"

definition onSIGTERM :: "TerminalIMEProxy \<Rightarrow> TerminalIMEProxy" where
  "onSIGTERM p = processExit 0 (destroy p)"

definition onResize :: "nat option \<Rightarrow> nat option \<Rightarrow> TerminalIMEProxy \<Rightarrow> TerminalIMEProxy" where
  "onResize ttyCols ttyRows p =
     (if \<not> isDestroyed p
      then p\<lparr>ptySize := (case ttyCols of Some c \<Rightarrow> c | None \<Rightarrow> 80,
                          case ttyRows of Some r \<Rightarrow> r | None \<Rightarrow> 24)\<rparr>
      else p)"

definition onTimer :: "nat \<Rightarrow> TerminalIMEProxy \<Rightarrow> TerminalIMEProxy" where
  "onTimer h p = bufferCall (timerFires h) p"

text \<open>
  What the event loop can deliver to the proxy, and a call of the public \<open>destroy\<close>. Once
  \<open>process.exit\<close> has run there is no process left to receive anything.
\<close>

datatype event =
    StdinData "byte list" int
  | PtyData jsstring
  | PtyExit int int
  | TimerExpired nat
  | Resize "nat option" "nat option"
  | SIGINT
  | SIGTERM
  | DestroyCall

fun deliver :: "event \<Rightarrow> TerminalIMEProxy \<Rightarrow> TerminalIMEProxy" where
  "deliver (StdinData data now) p = onStdinData data now p"
| "deliver (PtyData data) p = onPtyData data p"
| "deliver (PtyExit exitCode signal) p = onPtyExit exitCode signal p"
| "deliver (TimerExpired h) p = onTimer h p"
| "deliver (Resize c r) p = onResize c r p"
| "deliver SIGINT p = onSIGINT p"
| "deliver SIGTERM p = onSIGTERM p"
| "deliver DestroyCall p = destroy p"

fun eventLoop :: "event list \<Rightarrow> TerminalIMEProxy \<Rightarrow> TerminalIMEProxy" where
  "eventLoop [] p = p"
| "eventLoop (e # es) p = (if exited p \<noteq> None then p else eventLoop es (deliver e p))"

section \<open>The command line\<close>

text \<open>
  The JavaScript numbers \<open>parseInt\<close> can return: \<open>NaN\<close>, an integer that a double holds
  (\<open>Num 0\<close> stands for both zeros, which \<open>||\<close> does not tell apart), or an infinity.
\<close>

datatype number = NaN | Num int | Infinity | NegInfinity

text \<open>
  A double has 53 significant bits: \<open>excessBits n\<close> is the number of low bits of \<open>n\<close> that
  do not fit, and \<open>nearestDouble n\<close> rounds them away to the nearest double, a tie going
  to the even neighbour. From \<open>2 ^ 1024\<close> on the result is an infinity.
\<close>

function excessBits :: "nat \<Rightarrow> nat" where
  "excessBits n = (if n < 2 ^ 53 then 0 else Suc (excessBits (n div 2)))"
  by pat_completeness auto
termination
  by (relation "measure id") auto

declare excessBits.simps [simp del]

definition nearestDouble :: "nat \<Rightarrow> nat" where
  "nearestDouble n =
     (let e = excessBits n; q = n div 2 ^ e; r = n mod 2 ^ e
      in if e = 0 then n
         else if 2 * r > 2 ^ e \<or> (2 * r = 2 ^ e \<and> odd q) then (q + 1) * 2 ^ e
         else q * 2 ^ e)"

definition toNumber :: "int \<Rightarrow> number" where
  "toNumber i =
     (let m = nearestDouble (nat \<bar>i\<bar>)
      in if m \<ge> 2 ^ 1024 then (if i < 0 then NegInfinity else Infinity)
         else Num (sgn i * int m))"

text \<open>
  \<open>parseInt(string, 10)\<close>: leading white space is dropped, then one sign, then the
  longest run of decimal digits is read and whatever follows is ignored; with no digit
  the result is \<open>NaN\<close>, and otherwise the number nearest to the signed integer read (V8
  hands the digits to its \<open>strtod\<close>, which rounds correctly).
\<close>

definition isStrWhiteSpaceChar :: "codeunit \<Rightarrow> bool" where
  "isStrWhiteSpaceChar c =
     (c \<in> {0x0009, 0x000A, 0x000B, 0x000C, 0x000D, 0x0020, 0x00A0, 0x1680, 0x2028, 0x2029,
            0x202F, 0x205F, 0x3000, 0xFEFF} \<or> (0x2000 \<le> c \<and> c \<le> 0x200A))"

definition isDigit :: "codeunit \<Rightarrow> bool" where
  "isDigit c = (0x30 \<le> c \<and> c \<le> 0x39)"

definition digitsValue :: "jsstring \<Rightarrow> int" where
  "digitsValue ds = foldl (\<lambda>acc c. acc * 10 + (uint c - 48)) 0 ds"

definition signOf :: "jsstring \<Rightarrow> int" where
  "signOf s = (case s of c # rest \<Rightarrow> if c = 0x2D then - 1 else 1 | [] \<Rightarrow> 1)"

definition dropSign :: "jsstring \<Rightarrow> jsstring" where
  "dropSign s = (case s of c # rest \<Rightarrow> if c = 0x2B \<or> c = 0x2D then rest else s | [] \<Rightarrow> s)"

definition integerPrefix :: "jsstring \<Rightarrow> jsstring" where
  "integerPrefix inputString = takeWhile isDigit (dropSign (dropWhile isStrWhiteSpaceChar inputString))"

definition parseInt10 :: "jsstring \<Rightarrow> number" where
  "parseInt10 inputString =
     (let S = dropWhile isStrWhiteSpaceChar inputString;
          Z = integerPrefix inputString
      in if Z = [] then NaN else toNumber (signOf S * digitsValue Z))"

text \<open>
  \<open>parseInt(args[++i], 10) || 50\<close>: \<open>args[++i]\<close> is \<open>undefined\<close> past the end of the
  arguments, which \<open>parseInt\<close> reads as the string \<open>undefined\<close>; \<open>||\<close> takes its right
  operand when the left one is \<open>NaN\<close> or zero.
\<close>

definition timeoutArgument :: "jsstring option \<Rightarrow> number" where
  "timeoutArgument v =
     (case parseInt10 (case v of Some s \<Rightarrow> s | None \<Rightarrow> js ''undefined'') of
        NaN \<Rightarrow> Num 50
      | Num n \<Rightarrow> if n = 0 then Num 50 else Num n
      | Infinity \<Rightarrow> Infinity
      | NegInfinity \<Rightarrow> NegInfinity)"

text \<open>
  What \<open>main\<close> comes to: \<open>process.exit\<close> with a code, or the construction of a proxy for
  \<open>command\<close> with \<open>args\<close>, \<open>debug\<close> and \<open>compositionTimeout\<close>.
\<close>

datatype outcome = Exit int | Run jsstring "jsstring list" bool number

definition afterFlags :: "bool \<Rightarrow> number \<Rightarrow> jsstring list \<Rightarrow> outcome" where
  "afterFlags debug timeout commandArgs =
     (if length commandArgs = 0 then Exit 1
      else Run (hd commandArgs) (tl commandArgs) debug timeout)"

fun parseFlags :: "jsstring list \<Rightarrow> bool \<Rightarrow> number \<Rightarrow> outcome" where
  "parseFlags [] debug timeout = afterFlags debug timeout []"
| "parseFlags (arg # rest) debug timeout =
     (if arg = js ''--debug'' \<or> arg = js ''-d'' then parseFlags rest True timeout
      else if arg = js ''--timeout'' \<or> arg = js ''-t'' then
        parseFlags (tl rest) debug (timeoutArgument (if rest = [] then None else Some (hd rest)))
      else if arg = js ''--help'' \<or> arg = js ''-h'' then Exit 0
      else if arg = js ''--version'' \<or> arg = js ''-v'' then Exit 0
      else afterFlags debug timeout (arg # rest))"

definition main :: "jsstring list \<Rightarrow> outcome" where
  "main args = parseFlags args False (Num 50)"



section \<open>Runs and reference points\<close>

text \<open>The calls a holder of a \<open>CompositionBuffer\<close> and the timer can make on it.\<close>

datatype operation =
    Process jsstring bool int
  | Flush
  | Clear
  | Backspace
  | TimerFires nat
  | Destroy

fun step :: "operation \<Rightarrow> CompositionBuffer \<Rightarrow> emission list \<times> CompositionBuffer" where
  "step (Process input isIME now) s = process input isIME now s"
| "step Flush s = flush s"
| "step Clear s = ([], clear s)"
| "step Backspace s = ([], snd (backspace s))"
| "step (TimerFires h) s = timerFires h s"
| "step Destroy s = ([], destroyBuffer s)"

fun run :: "operation list \<Rightarrow> CompositionBuffer \<Rightarrow> emission list \<times> CompositionBuffer" where
  "run [] s = ([], s)"
| "run (x # xs) s =
     (fst (step x s) @ fst (run xs (snd (step x s))), snd (run xs (snd (step x s))))"

text \<open>A fresh buffer after the IME chunk U+00F1, and after U+0061 U+1F600.\<close>

definition enyeBuffer :: CompositionBuffer where
  "enyeBuffer = snd (process [0xF1] True 1000 (createCompositionBuffer None))"

definition grinningBuffer :: CompositionBuffer where
  "grinningBuffer = snd (process [0x61, 0xD83D, 0xDE00] True 1000 (createCompositionBuffer None))"

text \<open>The state a backspace leaves after it took the only code point of \<open>enyeBuffer\<close>.\<close>

definition composingEmptyState :: CompositionBuffer where
  "composingEmptyState = snd (backspace enyeBuffer)"

text \<open>
  The specification's wording of regular input, to set against \<open>handleRegularInput\<close>:
  if composing, invoke \<open>flush()\<close>; then emit the text through the regular-input sink.
\<close>

definition handleRegularInput_spec :: "jsstring \<Rightarrow> CompositionBuffer \<Rightarrow> emission list \<times> CompositionBuffer" where
  "handleRegularInput_spec input s =
     (let (out, s1) = (if isComposing s then flush s else ([], s))
      in (out @ [OnRegularInput input], s1))"

text \<open>
  The specification's "valid integer number of milliseconds": an optional sign and then
  decimal digits only, with the number they write.
\<close>

definition isIntegerLiteral :: "jsstring \<Rightarrow> bool" where
  "isIntegerLiteral v = (dropSign v \<noteq> [] \<and> list_all isDigit (dropSign v))"

definition integerLiteralValue :: "jsstring \<Rightarrow> int" where
  "integerLiteralValue v = signOf v * digitsValue (dropSign v)"

text \<open>The eight option spellings \<open>main\<close> knows.\<close>

definition isOption :: "jsstring \<Rightarrow> bool" where
  "isOption arg =
     (arg \<in> {js ''--debug'', js ''-d'', js ''--timeout'', js ''-t'', js ''--help'', js ''-h'',
              js ''--version'', js ''-v''})"


text \<open>A proxy on a TTY with the default options, before any event.\<close>

definition freshProxy :: TerminalIMEProxy where
  "freshProxy = newTerminalIMEProxy None None None None None True"

text \<open>The same proxy after the terminal delivered the two bytes of U+00F1 in one chunk.\<close>

definition enyeProxy :: TerminalIMEProxy where
  "enyeProxy = onStdinData [0xC3, 0xB1] 1000 freshProxy"

section \<open>Facts about the string iterator\<close>

lemma concat_spread: "concat (spread s) = s"
  by (induction s rule: spread.induct) auto

lemma spread_eq_Nil: "spread s = [] \<longleftrightarrow> s = []"
  by (induction s rule: spread.induct) auto

lemma concat_butlast_spread:
  "s \<noteq> [] \<Longrightarrow> concat (butlast (spread s)) @ last (spread s) = s"
proof -
  assume "s \<noteq> []"
  then have ne: "spread s \<noteq> []" by (simp add: spread_eq_Nil)
  have "concat (butlast (spread s) @ [last (spread s)]) = s"
    using ne by (simp add: concat_spread)
  then show ?thesis by simp
qed

text \<open>
  Dropping the last element and joining the rest gives a string that iterates to exactly
  the remaining elements: no surrogate pair is cut and none is formed.
\<close>

lemma spread_butlast:
  "spread (concat (butlast (spread s))) = butlast (spread s)"
proof (induction s rule: spread.induct)
  case 1
  then show ?case by simp
next
  case (2 c)
  then show ?case by simp
next
  case (3 c1 c2 cs)
  show ?case
  proof (cases "isHighSurrogate c1 \<and> isLowSurrogate c2")
    case True
    with 3 show ?thesis by (auto simp: spread_eq_Nil)
  next
    case False
    let ?u = "c2 # cs"
    let ?t = "concat (butlast (spread ?u))"
    have ih: "spread ?t = butlast (spread ?u)" using 3(2) False by simp
    have pre: "?t @ last (spread ?u) = ?u" by (rule concat_butlast_spread) simp
    have ne: "spread ?u \<noteq> []" by (simp add: spread_eq_Nil)
    have eq: "butlast (spread (c1 # ?u)) = [c1] # butlast (spread ?u)"
      using False ne by simp
    define t where "t = ?t"
    have pre': "t @ last (spread ?u) = ?u" using pre by (simp add: t_def)
    have "spread (c1 # t) = [c1] # spread t"
    proof (cases t)
      case Nil
      then show ?thesis by simp
    next
      case (Cons d ds)
      with pre' have "d = c2" by simp
      with Cons False show ?thesis by simp
    qed
    then have "spread (c1 # ?t) = [c1] # spread ?t" by (simp add: t_def)
    then show ?thesis using eq ih by simp
  qed
qed

lemma isWellFormed_butlast:
  assumes "isWellFormed s"
  shows "isWellFormed (concat (butlast (spread s)))"
proof -
  have "\<not> list_ex loneSurrogate (butlast (spread s))"
    using assms by (auto simp: isWellFormed_def list_ex_iff dest: in_set_butlastD)
  then show ?thesis by (simp add: isWellFormed_def spread_butlast)
qed

lemmas buffer_defs = process_def handleIMEInput_def handleRegularInput_def flush_def clear_def
  backspace_def setTimeout_def clearTimeout_def createCompositionBuffer_def DEFAULT_TIMEOUT_def
  destroyBuffer_def timerFires_def

lemmas surrogate_defs = isHighSurrogate_def isLowSurrogate_def isSurrogate_def

section \<open>The composition buffer: backspace\<close>

text \<open>
  Claim C3. On an empty buffer \<open>backspace\<close> returns false and changes nothing. On a
  non-empty buffer it returns true, and the new buffer is the old one without its last
  code point: the old buffer is the new one followed by one whole element of the string
  iterator, the code points are the old ones without the last, their number goes down by
  exactly one, and a buffer free of lone surrogates (one that is valid UTF-8 when written
  out) stays so.
\<close>

theorem backspace_removes_last_code_point:
  "(buffer s = [] \<longrightarrow> backspace s = (False, s)) \<and>
   (buffer s \<noteq> [] \<longrightarrow>
      fst (backspace s) = True \<and>
      (\<exists>e. spread (buffer s) = spread (buffer (snd (backspace s))) @ [e] \<and>
           buffer s = buffer (snd (backspace s)) @ e) \<and>
      codePoints (buffer (snd (backspace s))) = butlast (codePoints (buffer s)) \<and>
      Suc (length (codePoints (buffer (snd (backspace s))))) = length (codePoints (buffer s)) \<and>
      (isWellFormed (buffer s) \<longrightarrow> isWellFormed (buffer (snd (backspace s)))))"
proof (cases "buffer s = []")
  case True
  then show ?thesis by (simp add: backspace_def)
next
  case False
  let ?b = "buffer (snd (backspace s))"
  have b: "?b = concat (butlast (spread (buffer s)))"
    using False by (simp add: backspace_def)
  have ne: "spread (buffer s) \<noteq> []" using False by (simp add: spread_eq_Nil)
  have sp: "spread ?b = butlast (spread (buffer s))" by (simp add: b spread_butlast)
  have 1: "spread (buffer s) = spread ?b @ [last (spread (buffer s))]"
    using ne by (simp add: sp)
  have 2: "buffer s = ?b @ last (spread (buffer s))"
    using concat_butlast_spread [OF False] by (simp add: b)
  have 3: "codePoints ?b = butlast (codePoints (buffer s))"
    by (simp add: codePoints_def sp map_butlast)
  have 4: "Suc (length (codePoints ?b)) = length (codePoints (buffer s))"
    using ne by (simp add: codePoints_def sp)
  have 5: "isWellFormed (buffer s) \<longrightarrow> isWellFormed ?b"
    by (simp add: b isWellFormed_butlast)
  have 0: "fst (backspace s) = True" using False by (simp add: backspace_def)
  from 0 1 2 3 4 5 False show ?thesis by blast
qed

theorem backspace_removes_last_code_point_witness:
  "buffer grinningBuffer \<noteq> [] \<and> isWellFormed (buffer grinningBuffer) \<and>
   fst (backspace grinningBuffer) = True \<and>
   buffer (snd (backspace grinningBuffer)) = [0x61] \<and>
   codePoints (buffer grinningBuffer) = [0x61, 0x1F600] \<and>
   codePoints (buffer (snd (backspace grinningBuffer))) = [0x61] \<and>
   isWellFormed (buffer (snd (backspace grinningBuffer))) \<and>
   backspace (createCompositionBuffer None) = (False, createCompositionBuffer None)"
  using backspace_removes_last_code_point [of grinningBuffer]
    backspace_removes_last_code_point [of "createCompositionBuffer None"]
  by (simp add: grinningBuffer_def buffer_defs surrogate_defs codePoints_def isWellFormed_def)

text \<open>
  Claim C9. \<open>backspace\<close> changes the buffer field and nothing else: the composing flag,
  the time of the last input, the timer handle and the armed timers are what they were,
  also when the call empties the buffer.
\<close>

theorem backspace_changes_buffer_only:
  "isComposing (snd (backspace s)) = isComposing s \<and>
   lastInputTime (snd (backspace s)) = lastInputTime s \<and>
   flushTimer (snd (backspace s)) = flushTimer s \<and>
   pending (snd (backspace s)) = pending s \<and>
   snd (backspace s) = s\<lparr>buffer := buffer (snd (backspace s))\<rparr>"
  by (simp add: backspace_def)

theorem backspace_changes_buffer_only_witness:
  "buffer enyeBuffer = [0xF1] \<and> buffer (snd (backspace enyeBuffer)) = [] \<and>
   isComposing (snd (backspace enyeBuffer)) = True \<and>
   lastInputTime (snd (backspace enyeBuffer)) = 1000 \<and>
   flushTimer (snd (backspace enyeBuffer)) = Some 0 \<and>
   pending (snd (backspace enyeBuffer)) = [(0, 50)]"
  using backspace_changes_buffer_only [of enyeBuffer]
  by (simp add: enyeBuffer_def buffer_defs)

section \<open>The composition buffer: the composing flag\<close>

text \<open>
  Claim C1 asks that composing holds exactly when the buffer is non-empty, and in
  particular that composing is false once \<open>backspace\<close> has removed the last code point.
  After the IME chunk U+00F1 and one \<open>backspace\<close> the buffer is empty and the flag is
  still set: \<open>backspace\<close> never resets it, while \<open>flush\<close> and \<open>clear\<close>, the other two
  operations that empty the buffer, do.
\<close>

theorem backspace_emptying_keeps_composing:
  "fst (backspace enyeBuffer) = True \<and> buffer (snd (backspace enyeBuffer)) = [] \<and>
   isComposing (snd (backspace enyeBuffer)) = True"
  by (simp add: enyeBuffer_def buffer_defs)

text \<open>One half of the invariant does hold through every operation: buffered text implies composing.\<close>

lemma step_keeps_buffered_composing:
  assumes "buffer s \<noteq> [] \<longrightarrow> isComposing s"
  shows "buffer (snd (step x s)) \<noteq> [] \<longrightarrow> isComposing (snd (step x s))"
  using assms
  by (cases x)
    (auto simp: buffer_defs Let_def split: option.splits if_splits prod.splits)

section \<open>The composition buffer: emissions\<close>

text \<open>Only \<open>flush\<close> calls the flushed-text sink, and only with a non-empty buffer.\<close>

lemma flush_emits_nonempty: "OnFlush [] \<notin> set (fst (flush s))"
  by (simp add: flush_def Let_def split: option.split)

lemma process_emits_nonempty: "OnFlush [] \<notin> set (fst (process input isIME now s))"
proof (cases isIME)
  case True
  then show ?thesis
    by (simp add: process_def handleIMEInput_def setTimeout_def Let_def split: option.split)
next
  case False
  show ?thesis
  proof (cases "isComposing s \<and> buffer s \<noteq> []")
    case True
    with \<open>\<not> isIME\<close> flush_emits_nonempty [of s] show ?thesis
      by (auto simp: process_def handleRegularInput_def split: prod.split)
  next
    case False
    with \<open>\<not> isIME\<close> show ?thesis
      by (auto simp: process_def handleRegularInput_def)
  qed
qed

lemma step_emits_nonempty: "OnFlush [] \<notin> set (fst (step x s))"
  by (cases x) (simp_all add: process_emits_nonempty flush_emits_nonempty timerFires_def)

text \<open>
  Claim C8. Whatever the state and whatever the sequence of operations (input of either
  kind, explicit flush, clear, backspace, a timer firing, destroy), the flushed-text sink
  is never called with the empty string.
\<close>

theorem onFlush_never_empty: "OnFlush [] \<notin> set (fst (run ops s))"
proof (induction ops arbitrary: s)
  case Nil
  then show ?case by simp
next
  case (Cons x xs)
  obtain out s1 where st: "step x s = (out, s1)" by (cases "step x s")
  obtain out' s2 where rn: "run xs s1 = (out', s2)" by (cases "run xs s1")
  have "OnFlush [] \<notin> set out" using step_emits_nonempty [of x s] st by simp
  moreover have "OnFlush [] \<notin> set out'" using Cons.IH [of s1] rn by simp
  ultimately show ?case using st rn by simp
qed

theorem onFlush_never_empty_witness:
  "fst (run [Process [0xF1] True 1000, Backspace, Process [0x61] False 1010, Flush,
             Process [0x4E2D] True 1020, TimerFires 1, TimerFires 1, Flush]
          (createCompositionBuffer None))
     = [OnRegularInput [0x61], OnFlush [0x4E2D]] \<and>
   OnFlush [] \<notin> set (fst (run [Process [0xF1] True 1000, Backspace, Process [0x61] False 1010, Flush,
             Process [0x4E2D] True 1020, TimerFires 1, TimerFires 1, Flush]
          (createCompositionBuffer None)))"
  using onFlush_never_empty [of "[Process [0xF1] True 1000, Backspace, Process [0x61] False 1010, Flush,
             Process [0x4E2D] True 1020, TimerFires 1, TimerFires 1, Flush]" "createCompositionBuffer None"]
  by (simp add: buffer_defs surrogate_defs)

section \<open>The composition buffer: regular input\<close>

text \<open>
  Claim C2 as written: whenever composing is set at the start of \<open>process(text, false)\<close>,
  \<open>flush()\<close> runs first. In \<open>composingEmptyState\<close> composing is set and a timer is armed,
  yet regular input leaves the flag set and the timer armed, where \<open>flush\<close> would have
  reset the one and cancelled the other: \<open>handleRegularInput\<close> calls \<open>flush\<close> only under
  the guard \<open>isComposing && buffer\<close>.
\<close>

theorem regular_input_skips_flush_counterexample:
  "isComposing composingEmptyState \<and>
   flushTimer composingEmptyState = Some 0 \<and>
   isComposing (snd (process [0x61] False 2000 composingEmptyState)) \<and>
   flushTimer (snd (process [0x61] False 2000 composingEmptyState)) = Some 0 \<and>
   pending (snd (process [0x61] False 2000 composingEmptyState)) = [(0, 50)] \<and>
   \<not> isComposing (snd (flush composingEmptyState)) \<and>
   flushTimer (snd (flush composingEmptyState)) = None \<and>
   pending (snd (flush composingEmptyState)) = [] \<and>
   process [0x61] False 2000 composingEmptyState \<noteq> handleRegularInput_spec [0x61] composingEmptyState"
  by (simp add: composingEmptyState_def enyeBuffer_def handleRegularInput_spec_def buffer_defs)

text \<open>
  Claim C2 amended. If composing is set and the buffer is non-empty when
  \<open>process(text, false)\<close> starts, \<open>flush()\<close> runs before the text is emitted: the sinks
  receive the buffered text and then the text, the buffer is empty, composing is false and
  the timer is cancelled. Otherwise the state is left as it is. In every case the
  regular-input sink receives the text exactly once, as the last emission.
\<close>

theorem regular_input_flushes_nonempty_buffer:
  "(isComposing s \<and> buffer s \<noteq> [] \<longrightarrow>
      process input False now s = (fst (flush s) @ [OnRegularInput input], snd (flush s)) \<and>
      fst (process input False now s) = [OnFlush (buffer s), OnRegularInput input] \<and>
      \<not> isComposing (snd (process input False now s)) \<and>
      buffer (snd (process input False now s)) = [] \<and>
      flushTimer (snd (process input False now s)) = None \<and>
      (\<forall>h. flushTimer s = Some h \<longrightarrow> h \<notin> fst ` set (pending (snd (process input False now s))))) \<and>
   (\<not> (isComposing s \<and> buffer s \<noteq> []) \<longrightarrow>
      process input False now s = ([OnRegularInput input], s)) \<and>
   filter (\<lambda>e. case e of OnRegularInput t \<Rightarrow> True | OnFlush t \<Rightarrow> False) (fst (process input False now s))
     = [OnRegularInput input] \<and>
   last (fst (process input False now s)) = OnRegularInput input"
  by (auto simp: process_def handleRegularInput_def flush_def clearTimeout_def Let_def
      split: option.splits prod.splits)

theorem regular_input_flushes_nonempty_buffer_witness:
  "isComposing enyeBuffer \<and> buffer enyeBuffer \<noteq> [] \<and>
   fst (process [0x61] False 2000 enyeBuffer) = [OnFlush [0xF1], OnRegularInput [0x61]] \<and>
   \<not> isComposing (snd (process [0x61] False 2000 enyeBuffer)) \<and>
   pending (snd (process [0x61] False 2000 enyeBuffer)) = [] \<and>
   \<not> (isComposing composingEmptyState \<and> buffer composingEmptyState \<noteq> []) \<and>
   process [0x61] False 2000 composingEmptyState = ([OnRegularInput [0x61]], composingEmptyState)"
  using regular_input_flushes_nonempty_buffer [of enyeBuffer "[0x61]" 2000]
    regular_input_flushes_nonempty_buffer [of composingEmptyState "[0x61]" 2000]
  by (simp add: composingEmptyState_def enyeBuffer_def buffer_defs)

section \<open>The IME detector\<close>

lemmas detector_defs = isIMEInput_def isMultiByte_def byteLength_def hasCombiningMarks_def
  isVietnamese_def isCJK_def isChinese_def isJapanese_def isKorean_def test_def inRange_def
  vietnamese_precomposed_def vietnamese_combining_def chinese_main_def chinese_extA_def
  chinese_compat_def chinese_radicals_def japanese_hiragana_def japanese_katakana_def
  japanese_katakanaExt_def japanese_halfwidth_def korean_hangul_def korean_jamo_def
  korean_jamoExt_def korean_compat_def thai_def arabic_def devanagari_def

lemma ascii_not_high: "c < 0x80 \<Longrightarrow> \<not> isHighSurrogate c"
  for c :: codeunit
  by (simp add: isHighSurrogate_def word_le_nat_alt word_less_nat_alt)

lemma byteLength_Nil: "byteLength [] = 0"
  by (simp add: byteLength_def)

lemma byteLength_single: "byteLength [c] = utf8Length [c]"
  by (simp add: byteLength_def)

lemma byteLength_pair:
  "isHighSurrogate c1 \<and> isLowSurrogate c2 \<Longrightarrow> byteLength (c1 # c2 # cs) = 4 + byteLength cs"
  by (simp add: byteLength_def)

lemma byteLength_unit:
  "\<not> (isHighSurrogate c1 \<and> isLowSurrogate c2) \<Longrightarrow>
   byteLength (c1 # c2 # cs) = utf8Length [c1] + byteLength (c2 # cs)"
  by (auto simp: byteLength_def)

lemma byteLength_ge_length: "length s \<le> byteLength s"
proof (induction s rule: spread.induct)
  case 1
  then show ?case by (simp add: byteLength_Nil)
next
  case (2 c)
  then show ?case by (simp add: byteLength_single)
next
  case (3 c1 c2 cs)
  show ?case
  proof (cases "isHighSurrogate c1 \<and> isLowSurrogate c2")
    case True
    with 3(1) show ?thesis by (simp add: byteLength_pair)
  next
    case False
    with 3(2) show ?thesis by (simp add: byteLength_unit)
  qed
qed

lemma byteLength_gt_length:
  "\<exists>c\<in>set s. \<not> c < 0x80 \<Longrightarrow> length s < byteLength s"
proof (induction s rule: spread.induct)
  case 1
  then show ?case by simp
next
  case (2 c)
  then show ?case by (simp add: byteLength_single)
next
  case (3 c1 c2 cs)
  show ?case
  proof (cases "isHighSurrogate c1 \<and> isLowSurrogate c2")
    case True
    with byteLength_ge_length [of cs] show ?thesis by (simp add: byteLength_pair)
  next
    case False
    show ?thesis
    proof (cases "c1 < 0x80")
      case True
      with 3(3) have "\<exists>c\<in>set (c2 # cs). \<not> c < 0x80" by auto
      with 3(2) False have "length (c2 # cs) < byteLength (c2 # cs)" by blast
      with False show ?thesis by (simp add: byteLength_unit)
    next
      case c1: False
      with False byteLength_ge_length [of "c2 # cs"] show ?thesis
        by (simp add: byteLength_unit)
    qed
  qed
qed

lemma byteLength_ascii:
  "\<forall>c\<in>set s. c < 0x80 \<Longrightarrow> byteLength s = length (codePoints s)"
proof (induction s rule: spread.induct)
  case 1
  then show ?case by (simp add: byteLength_Nil codePoints_def)
next
  case (2 c)
  then show ?case by (simp add: byteLength_single codePoints_def)
next
  case (3 c1 c2 cs)
  from 3(3) have c1: "c1 < 0x80" and rest: "\<forall>c\<in>set (c2 # cs). c < 0x80" by simp_all
  from c1 have nh: "\<not> isHighSurrogate c1" by (rule ascii_not_high)
  from 3(2) nh rest have "byteLength (c2 # cs) = length (codePoints (c2 # cs))" by blast
  then show ?case using nh c1 by (simp add: byteLength_def codePoints_def)
qed

text \<open>
  Claim C4. A non-empty string whose UTF-8 byte length exceeds its number of code points
  is classified as IME input, and the empty string and a single ASCII character are
  classified as regular.
\<close>

theorem isIMEInput_multibyte_and_ascii:
  "(input \<noteq> [] \<and> length (codePoints input) < byteLength input \<longrightarrow> isIMEInput input) \<and>
   (input = [] \<or> (\<exists>c. input = [c] \<and> c < 0x80) \<longrightarrow> \<not> isIMEInput input)"
proof (intro conjI impI)
  assume a: "input \<noteq> [] \<and> length (codePoints input) < byteLength input"
  then have ex: "\<exists>c\<in>set input. \<not> c < 0x80"
    using byteLength_ascii [of input] by auto
  then have mb: "isMultiByte input"
    by (simp add: isMultiByte_def byteLength_gt_length)
  have "\<not> (case input of [c] \<Rightarrow> c < 128 | _ \<Rightarrow> False)"
    using ex by (auto split: list.splits)
  with a mb show "isIMEInput input" by (simp add: isIMEInput_def)
next
  assume "input = [] \<or> (\<exists>c. input = [c] \<and> c < 0x80)"
  then show "\<not> isIMEInput input" by (auto simp: isIMEInput_def)
qed

theorem isIMEInput_multibyte_and_ascii_witness:
  "length (codePoints [0x63, 0x68, 0xE0, 0x6F]) = 4 \<and> byteLength [0x63, 0x68, 0xE0, 0x6F] = 5 \<and>
   isIMEInput [0x63, 0x68, 0xE0, 0x6F] \<and>
   length (codePoints [0xD83D, 0xDE00]) = 1 \<and> byteLength [0xD83D, 0xDE00] = 4 \<and>
   isIMEInput [0xD83D, 0xDE00] \<and>
   \<not> isIMEInput [] \<and> \<not> isIMEInput [0x61]"
  using isIMEInput_multibyte_and_ascii [of "[0x63, 0x68, 0xE0, 0x6F]"]
    isIMEInput_multibyte_and_ascii [of "[0xD83D, 0xDE00]"]
    isIMEInput_multibyte_and_ascii [of "[]"]
    isIMEInput_multibyte_and_ascii [of "[0x61]"]
  by (simp add: codePoints_def byteLength_def surrogate_defs)

section \<open>Decoding: the chunks of the specification's scenarios\<close>

lemma toStringUtf8_chao: "toStringUtf8 [0x63, 0x68, 0xC3, 0xA0, 0x6F] = [0x63, 0x68, 0xE0, 0x6F]"
  by (simp add: toStringUtf8_def leadByte_def fromCodePoint_def)

lemma toStringUtf8_zhong: "toStringUtf8 [0xE4, 0xB8, 0xAD] = [0x4E2D]"
  by (simp add: toStringUtf8_def leadByte_def fromCodePoint_def)

lemma toStringUtf8_ill_formed:
  "toStringUtf8 [0xF0, 0x9F, 0x98, 0x80, 0xFF, 0xC3] = [0xD83D, 0xDE00, 0xFFFD, 0xFFFD]"
  by (simp add: toStringUtf8_def leadByte_def fromCodePoint_def)

lemma toStringUtf8_DEL: "toStringUtf8 [0x7F] = [0x7F]"
  by (simp add: toStringUtf8_def leadByte_def fromCodePoint_def)

lemma toStringUtf8_BS: "toStringUtf8 [0x08] = [0x08]"
  by (simp add: toStringUtf8_def leadByte_def fromCodePoint_def)

section \<open>The special-key router\<close>

lemma handleSpecialKeys_backspace:
  assumes "b = 0x7F \<or> b = 0x08"
  shows "handleSpecialKeys [b] p =
           (True, if \<not> fst (backspace (compositionBuffer p))
                  then sendToApp [ucast b] (p\<lparr>compositionBuffer := snd (backspace (compositionBuffer p))\<rparr>)
                  else p\<lparr>compositionBuffer := snd (backspace (compositionBuffer p))\<rparr>)"
proof -
  from assms have ts: "toStringUtf8 [b] = [ucast b]"
    using toStringUtf8_DEL toStringUtf8_BS by auto
  from assms have n3: "b \<noteq> 0x03" and n4: "b \<noteq> 0x04" by auto
  show ?thesis
    using assms n3 n4 by (simp add: handleSpecialKeys_def ts split: prod.split)
qed

lemmas proxy_defs = newTerminalIMEProxy_def freshProxy_def onPtyExit_def onSIGTERM_def onSIGINT_def
  processExit_def destroy_def destroyBuffer_def createCompositionBuffer_def

text \<open>
  Claim C5. For a chunk of the single byte 0x7F or 0x08 on a live proxy, the router
  consumes the chunk and calls \<open>backspace\<close> on the buffer; the byte is written to the child
  exactly when \<open>backspace\<close> returned false, which is when the buffer was empty, and
  nothing is written when the buffer took the backspace.
\<close>

theorem backspace_key_routing:
  assumes "\<not> isDestroyed p" and "b = 0x7F \<or> b = 0x08"
  shows "fst (handleSpecialKeys [b] p) = True \<and>
         onStdinData [b] now p = snd (handleSpecialKeys [b] p) \<and>
         compositionBuffer (onStdinData [b] now p) = snd (backspace (compositionBuffer p)) \<and>
         ptyWritten (onStdinData [b] now p) =
           ptyWritten p @ (if fst (backspace (compositionBuffer p)) then [] else [[ucast b]]) \<and>
         (fst (backspace (compositionBuffer p)) \<longleftrightarrow> buffer (compositionBuffer p) \<noteq> []) \<and>
         (\<not> fst (backspace (compositionBuffer p)) \<longrightarrow>
            compositionBuffer (onStdinData [b] now p) = compositionBuffer p)"
proof -
  note hs = handleSpecialKeys_backspace [OF assms(2), of p]
  have on: "onStdinData [b] now p = snd (handleSpecialKeys [b] p)"
    using assms(1) by (simp add: onStdinData_def hs)
  have bs: "fst (backspace (compositionBuffer p)) \<longleftrightarrow> buffer (compositionBuffer p) \<noteq> []"
    by (simp add: backspace_def)
  have same: "\<not> fst (backspace (compositionBuffer p)) \<longrightarrow>
      snd (backspace (compositionBuffer p)) = compositionBuffer p"
    by (simp add: backspace_def)
  show ?thesis
    using assms(1) same bs by (simp add: on hs sendToApp_def)
qed

theorem backspace_key_routing_witness:
  "\<not> isDestroyed freshProxy \<and> buffer (compositionBuffer freshProxy) = [] \<and>
   ptyWritten (onStdinData [0x08] 1005 freshProxy) = [[0x08]] \<and>
   \<not> isDestroyed enyeProxy \<and> buffer (compositionBuffer enyeProxy) = [0xF1] \<and>
   ptyWritten (onStdinData [0x7F] 1005 enyeProxy) = [] \<and>
   buffer (compositionBuffer (onStdinData [0x7F] 1005 enyeProxy)) = []"
proof -
  have e: "enyeProxy = freshProxy\<lparr>compositionBuffer := enyeBuffer\<rparr>"
    by (simp add: enyeProxy_def enyeBuffer_def onStdinData_def handleSpecialKeys_def
        toStringUtf8_def leadByte_def fromCodePoint_def isIMEInput_def isMultiByte_def
        byteLength_def bufferCall_def proxy_defs buffer_defs)
  have f: "\<not> isDestroyed freshProxy \<and> buffer (compositionBuffer freshProxy) = [] \<and>
      ptyWritten freshProxy = []"
    by (simp add: proxy_defs)
  have b: "buffer enyeBuffer = [0xF1]"
    by (simp add: enyeBuffer_def buffer_defs)
  show ?thesis
    using backspace_key_routing [of freshProxy "0x08" 1005]
      backspace_key_routing [of enyeProxy "0x7F" 1005] f b
    by (auto simp: e backspace_def)
qed

section \<open>The proxy after destroy\<close>

lemma sendToApp_destroyed: "isDestroyed p \<Longrightarrow> sendToApp text p = p"
  by (simp add: sendToApp_def)

lemma sink_destroyed: "isDestroyed p \<Longrightarrow> sink e p = p"
  by (cases e) (simp_all add: sendToApp_destroyed)

lemma fold_sink_destroyed: "isDestroyed p \<Longrightarrow> fold sink out p = p"
  by (induction out) (simp_all add: sink_destroyed)

lemma bufferCall_destroyed:
  "isDestroyed p \<Longrightarrow> bufferCall f p = p\<lparr>compositionBuffer := snd (f (compositionBuffer p))\<rparr>"
  by (simp add: bufferCall_def fold_sink_destroyed)

lemma destroy_destroyed: "isDestroyed p \<Longrightarrow> destroy p = p"
  by (simp add: destroy_def)

lemma isDestroyed_destroy: "isDestroyed (destroy p)"
  by (simp add: destroy_def)

lemma destroy_writes:
  "ptyWritten (destroy p) = ptyWritten p \<and> stdoutWritten (destroy p) = stdoutWritten p"
  by (simp add: destroy_def)

lemma deliver_destroyed:
  assumes "isDestroyed p"
  shows "isDestroyed (deliver e p) \<and> ptyWritten (deliver e p) = ptyWritten p \<and>
         stdoutWritten (deliver e p) = stdoutWritten p"
  using assms
  by (cases e)
    (simp_all add: onStdinData_def onPtyData_def onPtyExit_def onTimer_def onResize_def
      onSIGINT_def onSIGTERM_def processExit_def destroy_destroyed bufferCall_destroyed)

lemma eventLoop_destroyed:
  "isDestroyed p \<Longrightarrow>
   isDestroyed (eventLoop es p) \<and> ptyWritten (eventLoop es p) = ptyWritten p \<and>
   stdoutWritten (eventLoop es p) = stdoutWritten p"
proof (induction es arbitrary: p)
  case Nil
  then show ?case by simp
next
  case (Cons e es)
  from deliver_destroyed [OF Cons.prems, of e] Cons.IH [of "deliver e p"] Cons.prems
  show ?case by simp
qed

text \<open>
  Claim C10. Once \<open>destroy\<close> has run, no event adds anything to what was written to the
  child PTY or to stdout: a stdin chunk, a buffer emission and a chunk of child output
  each leave the proxy as it is, whatever events follow, and a second \<open>destroy\<close> changes
  nothing.
\<close>

theorem nothing_written_after_destroy:
  "isDestroyed (destroy p) \<and>
   destroy (destroy p) = destroy p \<and>
   ptyWritten (eventLoop es (destroy p)) = ptyWritten p \<and>
   stdoutWritten (eventLoop es (destroy p)) = stdoutWritten p \<and>
   onStdinData data now (destroy p) = destroy p \<and>
   sendToApp text (destroy p) = destroy p \<and>
   onPtyData out (destroy p) = destroy p"
  using eventLoop_destroyed [OF isDestroyed_destroy, of es p]
  by (simp add: isDestroyed_destroy destroy_destroyed destroy_writes sendToApp_destroyed
      onStdinData_def onPtyData_def)

theorem nothing_written_after_destroy_witness:
  "ptyWritten (eventLoop [StdinData [0x61] 1010, TimerExpired 0, PtyData [0x62], DestroyCall,
                          StdinData [0x0D] 1020] (destroy enyeProxy)) = [] \<and>
   stdoutWritten (eventLoop [StdinData [0x61] 1010, TimerExpired 0, PtyData [0x62], DestroyCall,
                             StdinData [0x0D] 1020] (destroy enyeProxy)) = [] \<and>
   ptyWritten (eventLoop [StdinData [0x61] 1010] enyeProxy) = [[0xF1], [0x61]]"
proof -
  have e: "enyeProxy = freshProxy\<lparr>compositionBuffer := enyeBuffer\<rparr>"
    by (simp add: enyeProxy_def enyeBuffer_def onStdinData_def handleSpecialKeys_def
        toStringUtf8_def leadByte_def fromCodePoint_def isIMEInput_def isMultiByte_def
        byteLength_def bufferCall_def proxy_defs buffer_defs)
  have w: "ptyWritten enyeProxy = [] \<and> stdoutWritten enyeProxy = []"
    by (simp add: e proxy_defs)
  have live: "ptyWritten (eventLoop [StdinData [0x61] 1010] enyeProxy) = [[0xF1], [0x61]]"
    by (simp add: e enyeBuffer_def onStdinData_def handleSpecialKeys_def toStringUtf8_def
        leadByte_def fromCodePoint_def isIMEInput_def detector_defs bufferCall_def sendToApp_def
        proxy_defs buffer_defs)
  show ?thesis
    using nothing_written_after_destroy [of enyeProxy
        "[StdinData [0x61] 1010, TimerExpired 0, PtyData [0x62], DestroyCall, StdinData [0x0D] 1020]"]
      w live
    by simp
qed

section \<open>Numbers\<close>

lemma excessBits_small: "n < 2 ^ 53 \<Longrightarrow> excessBits n = 0"
  by (subst excessBits.simps) simp

lemma excessBits_large: "\<not> n < 2 ^ 53 \<Longrightarrow> excessBits n = Suc (excessBits (n div 2))"
  by (subst excessBits.simps) simp

lemma nearestDouble_small: "n < 2 ^ 53 \<Longrightarrow> nearestDouble n = n"
  by (simp add: nearestDouble_def excessBits_small)

lemma div_excessBits_pos: "0 < n \<Longrightarrow> 0 < n div 2 ^ excessBits n"
proof (induction n rule: excessBits.induct)
  case (1 n)
  show ?case
  proof (cases "n < 2 ^ 53")
    case True
    with 1(2) show ?thesis by (simp add: excessBits_small)
  next
    case False
    then have "0 < n div 2" by simp
    with 1(1) False have "0 < (n div 2) div 2 ^ excessBits (n div 2)" by simp
    then show ?thesis
      using False by (simp add: excessBits_large div_mult2_eq)
  qed
qed

lemma nearestDouble_pos: "0 < n \<Longrightarrow> 0 < nearestDouble n"
  using div_excessBits_pos [of n]
  by (simp add: nearestDouble_def Let_def)

lemma toNumber_exact: "\<bar>i\<bar> < 2 ^ 53 \<Longrightarrow> toNumber i = Num i"
proof -
  assume a: "\<bar>i\<bar> < 2 ^ 53"
  then have "nat \<bar>i\<bar> < 2 ^ 53" by simp
  then have n: "nearestDouble (nat \<bar>i\<bar>) = nat \<bar>i\<bar>" by (rule nearestDouble_small)
  have "nat \<bar>i\<bar> < (2::nat) ^ 53" using a by simp
  also have "(2::nat) ^ 53 < 2 ^ 1024" by simp
  finally have "\<not> (2::nat) ^ 1024 \<le> nat \<bar>i\<bar>" by simp
  then show ?thesis
    by (simp add: toNumber_def n Let_def mult_sgn_abs)
qed

lemma toNumber_zero: "toNumber 0 = Num 0"
  by (simp add: toNumber_exact)

lemma toNumber_nonzero: "i \<noteq> 0 \<Longrightarrow> toNumber i \<noteq> Num 0 \<and> toNumber i \<noteq> NaN"
  using nearestDouble_pos [of "nat \<bar>i\<bar>"]
  by (auto simp: toNumber_def Let_def sgn_if)

text \<open>The first integer that a double does not hold is rounded to its even neighbour.\<close>

lemma toNumber_rounds: "toNumber 9007199254740993 = Num 9007199254740992"
  by (simp add: toNumber_def nearestDouble_def excessBits_large excessBits_small Let_def)

section \<open>Exit codes\<close>




lemmas parseInt_defs = timeoutArgument_def parseInt10_def integerPrefix_def dropSign_def signOf_def
  digitsValue_def isDigit_def isStrWhiteSpaceChar_def isIntegerLiteral_def integerLiteralValue_def


section \<open>The timeout option\<close>

text \<open>
  Claim C7 as written: a value that is not a valid integer gives 50, and a valid integer
  overrides the default. \<open>12abc\<close> is not a valid integer and gives 12, because \<open>parseInt\<close>
  reads the leading digits and ignores the rest; \<open>0\<close> is a valid integer and gives 50,
  because \<open>||\<close> treats zero as it treats \<open>NaN\<close>.
\<close>

theorem timeout_argument_counterexample:
  "\<not> isIntegerLiteral (js ''12abc'') \<and> timeoutArgument (Some (js ''12abc'')) = Num 12 \<and>
   isIntegerLiteral (js ''0'') \<and> integerLiteralValue (js ''0'') = 0 \<and>
   timeoutArgument (Some (js ''0'')) = Num 50"
  by (simp add: parseInt_defs js_def toNumber_exact)

lemma digit_not_space: "isDigit c \<Longrightarrow> \<not> isStrWhiteSpaceChar c"
  by (auto simp: isDigit_def isStrWhiteSpaceChar_def word_le_nat_alt)

lemma literal_no_leading_space:
  assumes "isIntegerLiteral v"
  shows "dropWhile isStrWhiteSpaceChar v = v"
proof (cases v)
  case Nil
  then show ?thesis by simp
next
  case (Cons c rest)
  have "\<not> isStrWhiteSpaceChar c"
  proof (cases "c = 0x2B \<or> c = 0x2D")
    case True
    then show ?thesis by (auto simp: isStrWhiteSpaceChar_def)
  next
    case False
    with assms Cons have "isDigit c" by (simp add: isIntegerLiteral_def dropSign_def)
    then show ?thesis by (rule digit_not_space)
  qed
  with Cons show ?thesis by simp
qed

lemma literal_prefix:
  assumes "isIntegerLiteral v"
  shows "integerPrefix v = dropSign v"
proof -
  have "takeWhile isDigit (dropSign v) = dropSign v"
    using assms by (simp add: isIntegerLiteral_def list_all_iff)
  then show ?thesis by (simp add: integerPrefix_def literal_no_leading_space [OF assms])
qed

lemma or_fifty:
  "(case toNumber i of NaN \<Rightarrow> Num 50 | Num n \<Rightarrow> if n = 0 then Num 50 else Num n
      | Infinity \<Rightarrow> Infinity | NegInfinity \<Rightarrow> NegInfinity) =
   (if i = 0 then Num 50 else toNumber i)"
  using toNumber_nonzero [of i]
  by (cases "toNumber i") (auto simp: toNumber_zero)

text \<open>
  Claim C7 amended. For every value supplied to \<open>--timeout\<close> or \<open>-t\<close>, \<open>parseInt\<close> skips
  leading white space and one sign and reads the longest run of decimal digits that
  follows, ignoring the rest. If there is no such digit, or the digits write zero, the
  effective \<open>compositionTimeout\<close> is 50; otherwise it is the JavaScript number nearest
  to the signed integer read. So a value without a leading integer gives 50, a valid
  integer other than zero overrides the default (with itself when it is below \<open>2 ^ 53\<close>
  in magnitude), a non-zero integer followed by other characters overrides it too, and
  zero does not.
\<close>

theorem timeout_argument_value:
  "timeoutArgument (Some v) =
     (if integerPrefix v = [] \<or> digitsValue (integerPrefix v) = 0 then Num 50
      else toNumber (signOf (dropWhile isStrWhiteSpaceChar v) * digitsValue (integerPrefix v))) \<and>
   (isIntegerLiteral v \<longrightarrow>
      timeoutArgument (Some v) =
        (if integerLiteralValue v = 0 then Num 50 else toNumber (integerLiteralValue v))) \<and>
   (isIntegerLiteral v \<and> integerLiteralValue v \<noteq> 0 \<and> \<bar>integerLiteralValue v\<bar> < 2 ^ 53 \<longrightarrow>
      timeoutArgument (Some v) = Num (integerLiteralValue v)) \<and>
   (\<not> isOption command \<longrightarrow>
      main (js ''--timeout'' # v # command # cmdArgs) = Run command cmdArgs False (timeoutArgument (Some v)) \<and>
      main (js ''-t'' # v # command # cmdArgs) = Run command cmdArgs False (timeoutArgument (Some v)))"
proof -
  let ?S = "dropWhile isStrWhiteSpaceChar v"
  let ?Z = "integerPrefix v"
  have sign: "signOf ?S = 1 \<or> signOf ?S = - 1"
    by (simp add: signOf_def split: list.split)
  have 1: "timeoutArgument (Some v) =
     (if ?Z = [] \<or> digitsValue ?Z = 0 then Num 50 else toNumber (signOf ?S * digitsValue ?Z))"
  proof (cases "?Z = []")
    case True
    then show ?thesis by (simp add: timeoutArgument_def parseInt10_def)
  next
    case False
    then have "timeoutArgument (Some v) =
        (if signOf ?S * digitsValue ?Z = 0 then Num 50 else toNumber (signOf ?S * digitsValue ?Z))"
      by (simp add: timeoutArgument_def parseInt10_def or_fifty)
    with False sign show ?thesis by auto
  qed
  have 2: "timeoutArgument (Some v) =
        (if integerLiteralValue v = 0 then Num 50 else toNumber (integerLiteralValue v))"
    if lit: "isIntegerLiteral v"
  proof -
    have ne: "?Z \<noteq> []"
      using lit by (simp add: literal_prefix) (simp add: isIntegerLiteral_def)
    have sv: "signOf v = 1 \<or> signOf v = - 1"
      by (simp add: signOf_def split: list.split)
    show ?thesis
      using ne sv 1
      by (auto simp: literal_no_leading_space [OF lit] literal_prefix [OF lit]
          integerLiteralValue_def)
  qed
  have 3: "timeoutArgument (Some v) = Num (integerLiteralValue v)"
    if "isIntegerLiteral v \<and> integerLiteralValue v \<noteq> 0 \<and> \<bar>integerLiteralValue v\<bar> < 2 ^ 53"
    using that 2 by (simp add: toNumber_exact)
  have 4: "main (js ''--timeout'' # v # command # cmdArgs) = Run command cmdArgs False (timeoutArgument (Some v)) \<and>
      main (js ''-t'' # v # command # cmdArgs) = Run command cmdArgs False (timeoutArgument (Some v))"
    if "\<not> isOption command"
  proof -
    have t: "parseFlags (js ''--timeout'' # v # command # cmdArgs) False (Num 50) =
        parseFlags (command # cmdArgs) False (timeoutArgument (Some v))"
      by (simp add: js_def)
    have t': "parseFlags (js ''-t'' # v # command # cmdArgs) False (Num 50) =
        parseFlags (command # cmdArgs) False (timeoutArgument (Some v))"
      by (simp add: js_def)
    have c: "parseFlags (command # cmdArgs) False (timeoutArgument (Some v)) =
        Run command cmdArgs False (timeoutArgument (Some v))"
      using that by (simp add: isOption_def afterFlags_def)
    show ?thesis by (simp only: main_def t t' c)
  qed
  from 1 2 3 4 show ?thesis by blast
qed

theorem timeout_argument_value_witness:
  "timeoutArgument (Some (js ''fast'')) = Num 50 \<and>
   isIntegerLiteral (js ''120'') \<and> integerLiteralValue (js ''120'') = 120 \<and>
   timeoutArgument (Some (js ''120'')) = Num 120 \<and>
   timeoutArgument (Some (js ''-75ms'')) = Num (- 75) \<and>
   timeoutArgument (Some (js ''0abc'')) = Num 50 \<and>
   \<not> isOption (js ''claude'') \<and>
   main [js ''--timeout'', js ''120'', js ''claude''] = Run (js ''claude'') [] False (Num 120) \<and>
   main [js ''-t'', js ''12abc'', js ''claude'', js ''chat''] = Run (js ''claude'') [js ''chat''] False (Num 12)"
  using timeout_argument_value [of "js ''fast''" "js ''claude''" "[]"]
    timeout_argument_value [of "js ''120''" "js ''claude''" "[]"]
    timeout_argument_value [of "js ''-75ms''" "js ''claude''" "[]"]
    timeout_argument_value [of "js ''0abc''" "js ''claude''" "[]"]
    timeout_argument_value [of "js ''12abc''" "js ''claude''" "[js ''chat'']"]
  by (simp add: isOption_def parseInt_defs js_def toNumber_exact)

text \<open>
  A value of 16 digits or more need not come through unchanged, and an option that is
  the last argument finds no value and no command.
\<close>

lemma timeout_argument_rounds:
  "isIntegerLiteral (js ''9007199254740993'') \<and>
   timeoutArgument (Some (js ''9007199254740993'')) = Num 9007199254740992"
  by (simp add: parseInt_defs js_def toNumber_rounds)

lemma timeout_option_last: "main [js ''--timeout''] = Exit 1"
  by (simp add: main_def afterFlags_def js_def)

end
